theory Spec2Isabelle
  imports Complex_Main "HOL-Library.Word"
begin

section \<open>JavaScript values and the operators the validators use\<close>

text \<open>
  The directives of \<^verbatim>\<open>validators.js\<close> are handed JavaScript values by the framework.
  The model covers the primitive values of ECMAScript 5: \<^verbatim>\<open>undefined\<close>, \<^verbatim>\<open>null\<close>,
  booleans, numbers and strings.  A number is \<^verbatim>\<open>NaN\<close>, an infinity or a finite value;
  finite doubles are real numbers and the comparison operators compare them as such
  (the two zeros compare equal and are one value here).  A string is its list of
  UTF-16 code units.
\<close>

datatype jsnum = NaN | NegInfinity | Finite real | Infinity

type_synonym jsstring = "16 word list"

datatype jsval = JUndefined | JNull | JBool bool | JNum jsnum | JStr jsstring

text \<open>
  What can be raised: a \<^verbatim>\<open>TypeError\<close> by reading a property of \<^verbatim>\<open>undefined\<close> or
  \<^verbatim>\<open>null\<close>, and the error of a parser of the host (of expressions, of selectors) on a
  text it rejects.
\<close>

datatype error = TypeError | SyntaxError

text \<open>A string literal of the source, written with ASCII characters.\<close>

definition ustr :: "string \<Rightarrow> jsstring" where
  "ustr s = map of_char s"

text \<open>
  \<^verbatim>\<open>ToNumber\<close> (ES5 9.3).  The conversion of a string (9.3.1) parses a numeric literal
  and rounds it to a double; it belongs to the engine and is the parameter \<open>str2num\<close>.
\<close>

fun ToNumber :: "(jsstring \<Rightarrow> jsnum) \<Rightarrow> jsval \<Rightarrow> jsnum" where
  "ToNumber str2num JUndefined = NaN"
| "ToNumber str2num JNull = Finite 0"
| "ToNumber str2num (JBool b) = (if b then Finite 1 else Finite 0)"
| "ToNumber str2num (JNum n) = n"
| "ToNumber str2num (JStr s) = str2num s"

text \<open>\<^verbatim>\<open>ToBoolean\<close> (ES5 9.2), the truthiness an \<^verbatim>\<open>if\<close> tests.\<close>

fun ToBoolean :: "jsval \<Rightarrow> bool" where
  "ToBoolean JUndefined = False"
| "ToBoolean JNull = False"
| "ToBoolean (JBool b) = b"
| "ToBoolean (JNum n) = (n \<noteq> NaN \<and> n \<noteq> Finite 0)"
| "ToBoolean (JStr s) = (s \<noteq> [])"

text \<open>
  The abstract relational comparison \<^verbatim>\<open>x < y\<close> (ES5 11.8.5); \<open>None\<close> is its result
  \<^verbatim>\<open>undefined\<close>, given when an operand converts to \<^verbatim>\<open>NaN\<close>.  Two strings are
  compared by code units, everything else as numbers.
\<close>

fun num_less :: "jsnum \<Rightarrow> jsnum \<Rightarrow> bool option" where
  "num_less NaN ny = None"
| "num_less nx NaN = None"
| "num_less (Finite a) (Finite b) = Some (a < b)"
| "num_less Infinity ny = Some False"
| "num_less nx Infinity = Some True"
| "num_less nx NegInfinity = Some False"
| "num_less NegInfinity ny = Some True"

fun str_less :: "jsstring \<Rightarrow> jsstring \<Rightarrow> bool" where
  "str_less px [] = False"
| "str_less [] (y # ys) = True"
| "str_less (x # xs) (y # ys) = (if x = y then str_less xs ys else x < y)"

fun js_less :: "(jsstring \<Rightarrow> jsnum) \<Rightarrow> jsval \<Rightarrow> jsval \<Rightarrow> bool option" where
  "js_less str2num (JStr sx) (JStr sy) = Some (str_less sx sy)"
| "js_less str2num px py = num_less (ToNumber str2num px) (ToNumber str2num py)"

text \<open>
  The operators \<^verbatim>\<open>a > b\<close> (11.8.2: the comparison \<^verbatim>\<open>b < a\<close>) and \<^verbatim>\<open>a < b\<close> (11.8.1);
  an \<^verbatim>\<open>undefined\<close> comparison is \<^verbatim>\<open>false\<close>.
\<close>

definition js_gt :: "(jsstring \<Rightarrow> jsnum) \<Rightarrow> jsval \<Rightarrow> jsval \<Rightarrow> bool" where
  "js_gt str2num a b = (case js_less str2num b a of None \<Rightarrow> False | Some r \<Rightarrow> r)"

definition js_lt :: "(jsstring \<Rightarrow> jsnum) \<Rightarrow> jsval \<Rightarrow> jsval \<Rightarrow> bool" where
  "js_lt str2num a b = (case js_less str2num a b of None \<Rightarrow> False | Some r \<Rightarrow> r)"

text \<open>Strict equality \<^verbatim>\<open>a === b\<close> (ES5 11.9.6): \<^verbatim>\<open>NaN\<close> equals nothing.\<close>

fun strict_eq :: "jsval \<Rightarrow> jsval \<Rightarrow> bool" where
  "strict_eq JUndefined JUndefined = True"
| "strict_eq JNull JNull = True"
| "strict_eq (JBool a) (JBool b) = (a = b)"
| "strict_eq (JNum x) (JNum y) = (x \<noteq> NaN \<and> y \<noteq> NaN \<and> x = y)"
| "strict_eq (JStr s) (JStr t) = (s = t)"
| "strict_eq a b = False"

text \<open>
  Reading the property \<^verbatim>\<open>length\<close> of a value: a \<^verbatim>\<open>TypeError\<close> on \<^verbatim>\<open>undefined\<close> and
  \<^verbatim>\<open>null\<close>, the number of code units of a string, and \<^verbatim>\<open>undefined\<close> on a number or
  a boolean, whose wrapper objects have no such property.
\<close>

fun get_length :: "jsval \<Rightarrow> error + jsval" where
  "get_length JUndefined = Inl TypeError"
| "get_length JNull = Inl TypeError"
| "get_length (JStr s) = Inr (JNum (Finite (real (length s))))"
| "get_length (JBool b) = Inr JUndefined"
| "get_length (JNum n) = Inr JUndefined"

section \<open>The framework's model controller\<close>

text \<open>
  What the directives use of the \<^verbatim>\<open>ngModel\<close> controller \<^verbatim>\<open>ctrl\<close>: its \<^verbatim>\<open>$name\<close>, the
  view and model values, the validity flags written by \<^verbatim>\<open>$setValidity\<close> (rule name to
  boolean; a rule that was never evaluated has no entry) and the two pipelines.
  The functions in a pipeline are the closures this file registers.
\<close>

datatype handler = Fn_maxValidator | Fn_minValidator | Fn_notBlank

record ngModelController =
  ctrl_name :: string
  viewValue :: jsval
  modelValue :: jsval
  validity :: "string \<rightharpoonup> bool"
  parsers :: "handler list"
  formatters :: "handler list"

definition setValidity :: "ngModelController \<Rightarrow> string \<Rightarrow> bool \<Rightarrow> ngModelController" where
  "setValidity ctrl validationErrorKey isValid =
     ctrl\<lparr>validity := (validity ctrl)(validationErrorKey \<mapsto> isValid)\<rparr>"

text \<open>\<^verbatim>\<open>angular.isUndefined\<close>, \<^verbatim>\<open>angular.isDefined\<close>, and the controller's default
  \<^verbatim>\<open>$isEmpty\<close>:
  \<^verbatim>\<open>isUndefined(value) || value === '' || value === null || value !== value\<close>.\<close>

definition isUndefined :: "jsval \<Rightarrow> bool" where
  "isUndefined v = (v = JUndefined)"

definition isDefined :: "jsval \<Rightarrow> bool" where
  "isDefined v = (v \<noteq> JUndefined)"

definition isEmpty :: "jsval \<Rightarrow> bool" where
  "isEmpty v = (isUndefined v \<or> strict_eq v (JStr []) \<or> strict_eq v JNull \<or> \<not> strict_eq v v)"

text \<open>
  The host of a directive instance: the engine's string-to-number conversion and the
  scope's \<^verbatim>\<open>$eval\<close>, which maps the text of an expression to its current value or
  raises.
\<close>

record host =
  StringToNumber :: "jsstring \<Rightarrow> jsnum"
  scope_eval :: "string \<Rightarrow> error + jsval"

section \<open>The bound-check validators\<close>

text \<open>
  \<^verbatim>\<open>maxValidator\<close> (lines 59-69) and \<^verbatim>\<open>minValidator\<close> (lines 119-129).  \<open>attrs\<close> gives
  the current text of each attribute of the element.  The result is the controller
  after \<^verbatim>\<open>$setValidity\<close> and the returned value, or what \<^verbatim>\<open>scope.$eval\<close> raised.
\<close>

definition maxValidator ::
  "host \<Rightarrow> (string \<Rightarrow> string) \<Rightarrow> ngModelController \<Rightarrow> jsval \<Rightarrow>
     error + ngModelController \<times> jsval" where
  "maxValidator h attrs ctrl v =
     (case scope_eval h (attrs ''validateNumberMax'') of
        Inl e \<Rightarrow> Inl e
      | Inr max' \<Rightarrow>
          Inr (if isDefined max' \<and> \<not> isEmpty v \<and> js_gt (StringToNumber h) v max'
               then setValidity ctrl ''validateNumberMax'' False
               else setValidity ctrl ''validateNumberMax'' True,
               v))"

definition minValidator ::
  "host \<Rightarrow> (string \<Rightarrow> string) \<Rightarrow> ngModelController \<Rightarrow> jsval \<Rightarrow>
     error + ngModelController \<times> jsval" where
  "minValidator h attrs ctrl v =
     (case scope_eval h (attrs ''validateNumberMin'') of
        Inl e \<Rightarrow> Inl e
      | Inr min' \<Rightarrow>
          Inr (if isDefined min' \<and> \<not> isEmpty v \<and> js_lt (StringToNumber h) v min'
               then setValidity ctrl ''validateNumberMin'' False
               else setValidity ctrl ''validateNumberMin'' True,
               v))"

section \<open>The non-empty parser\<close>

text \<open>
  The parser of \<^verbatim>\<open>notBlank\<close> (lines 147-156).  Reading \<^verbatim>\<open>viewValue.length\<close> raises on
  \<^verbatim>\<open>undefined\<close> and \<^verbatim>\<open>null\<close>; the \<^verbatim>\<open>if\<close> tests the truthiness of what was read.
\<close>

definition notBlank :: "ngModelController \<Rightarrow> jsval \<Rightarrow> error + ngModelController \<times> jsval" where
  "notBlank ctrl vv =
     (case get_length vv of
        Inl e \<Rightarrow> Inl e
      | Inr len \<Rightarrow>
          if ToBoolean len
          then Inr (setValidity ctrl ''notBlank'' True, vv)
          else Inr (setValidity ctrl ''notBlank'' False, JUndefined))"

section \<open>Linking the directives to a field\<close>

text \<open>
  A field: its controller, the attribute texts of its element and the callbacks
  registered with \<^verbatim>\<open>attrs.$observe\<close>, each under the name of the attribute it observes.
  An observer of this file calls its validator on \<^verbatim>\<open>ctrl.$modelValue\<close> and drops the
  result (lines 76-78 and 136-138).
\<close>

datatype observer = Obs_validateNumberMax | Obs_validateNumberMin

record field =
  ctrl :: ngModelController
  attrs :: "string \<Rightarrow> string"
  observers :: "(string \<times> observer) list"

text \<open>
  The link functions (lines 54-79, 114-139, 146-157).  The bound-check directives
  return at once when there is no controller; \<^verbatim>\<open>push\<close> appends to a pipeline and
  \<^verbatim>\<open>unshift\<close> puts the parser in front.
\<close>

definition link_validateNumberMax ::
  "ngModelController option \<Rightarrow> (string \<times> observer) list \<Rightarrow>
     ngModelController option \<times> (string \<times> observer) list" where
  "link_validateNumberMax ctrl_opt obs =
     (case ctrl_opt of
        None \<Rightarrow> (None, obs)
      | Some c \<Rightarrow>
          (Some (c\<lparr>parsers := parsers c @ [Fn_maxValidator],
                   formatters := formatters c @ [Fn_maxValidator]\<rparr>),
           obs @ [(''validateNumberMax'', Obs_validateNumberMax)]))"


definition link_notBlank :: "ngModelController \<Rightarrow> ngModelController" where
  "link_notBlank c = c\<lparr>parsers := Fn_notBlank # parsers c\<rparr>"

section \<open>The framework's triggers\<close>

text \<open>
  The contract of the host framework the directives rely on, as AngularJS has it from
  version 1.3 on.  When the control reads a new value from the view, the parsers run in
  array order, each on the result of the one before, up to the first that returns
  \<^verbatim>\<open>undefined\<close>; the last result becomes the model value.  No parser runs on a view
  value that is \<^verbatim>\<open>undefined\<close>, and the model value is \<^verbatim>\<open>undefined\<close> then.  When the
  model value is changed by the program, all formatters run, in reverse array order, and
  the last result becomes the view value.  When the text of an attribute changes, every
  callback observing that attribute runs.  An exception raised by a function ends the
  run.  The validity keys the framework keeps for itself are not part of the model.
\<close>

fun run_handler ::
  "host \<Rightarrow> (string \<Rightarrow> string) \<Rightarrow> handler \<Rightarrow> ngModelController \<Rightarrow> jsval \<Rightarrow>
     error + ngModelController \<times> jsval" where
  "run_handler h atr Fn_maxValidator c v = maxValidator h atr c v"
| "run_handler h atr Fn_minValidator c v = minValidator h atr c v"
| "run_handler h atr Fn_notBlank c v = notBlank c v"

fun run_parsers ::
  "host \<Rightarrow> (string \<Rightarrow> string) \<Rightarrow> handler list \<Rightarrow> ngModelController \<Rightarrow> jsval \<Rightarrow>
     error + ngModelController \<times> jsval" where
  "run_parsers h atr [] c v = Inr (c, v)"
| "run_parsers h atr (fn # fns) c v =
     (case run_handler h atr fn c v of
        Inl e \<Rightarrow> Inl e
      | Inr (c', v') \<Rightarrow>
          if isUndefined v' then Inr (c', v') else run_parsers h atr fns c' v')"

text \<open>The formatters, given in the order in which they run.\<close>

fun run_formatters ::
  "host \<Rightarrow> (string \<Rightarrow> string) \<Rightarrow> handler list \<Rightarrow> ngModelController \<Rightarrow> jsval \<Rightarrow>
     error + ngModelController \<times> jsval" where
  "run_formatters h atr [] c v = Inr (c, v)"
| "run_formatters h atr (fn # fns) c v =
     (case run_handler h atr fn c v of
        Inl e \<Rightarrow> Inl e
      | Inr (c', v') \<Rightarrow> run_formatters h atr fns c' v')"

fun run_observer ::
  "host \<Rightarrow> (string \<Rightarrow> string) \<Rightarrow> observer \<Rightarrow> ngModelController \<Rightarrow>
     error + ngModelController" where
  "run_observer h atr Obs_validateNumberMax c =
     (case maxValidator h atr c (modelValue c) of Inl e \<Rightarrow> Inl e | Inr (c', v) \<Rightarrow> Inr c')"
| "run_observer h atr Obs_validateNumberMin c =
     (case minValidator h atr c (modelValue c) of Inl e \<Rightarrow> Inl e | Inr (c', v) \<Rightarrow> Inr c')"

fun run_observers ::
  "host \<Rightarrow> (string \<Rightarrow> string) \<Rightarrow> string \<Rightarrow> (string \<times> observer) list \<Rightarrow>
     ngModelController \<Rightarrow> error + ngModelController" where
  "run_observers h atr key [] c = Inr c"
| "run_observers h atr key ((k, ob) # obs) c =
     (if k = key
      then (case run_observer h atr ob c of
              Inl e \<Rightarrow> Inl e
            | Inr c' \<Rightarrow> run_observers h atr key obs c')
      else run_observers h atr key obs c)"

datatype field_event = ViewChange jsval | ModelChange jsval | AttrChange string string

fun field_step :: "host \<Rightarrow> field \<Rightarrow> field_event \<Rightarrow> error + field" where
  "field_step h f (ViewChange v) =
     (if isUndefined v
      then Inr (f\<lparr>ctrl := (ctrl f)\<lparr>viewValue := v, modelValue := JUndefined\<rparr>\<rparr>)
      else case run_parsers h (attrs f) (parsers (ctrl f)) ((ctrl f)\<lparr>viewValue := v\<rparr>) v of
             Inl e \<Rightarrow> Inl e
           | Inr (c, mv) \<Rightarrow> Inr (f\<lparr>ctrl := c\<lparr>modelValue := mv\<rparr>\<rparr>))"
| "field_step h f (ModelChange v) =
     (case run_formatters h (attrs f) (rev (formatters (ctrl f))) ((ctrl f)\<lparr>modelValue := v\<rparr>) v of
        Inl e \<Rightarrow> Inl e
      | Inr (c, vv) \<Rightarrow> Inr (f\<lparr>ctrl := c\<lparr>viewValue := vv\<rparr>\<rparr>))"
| "field_step h f (AttrChange key text) =
     (let atr = (attrs f)(key := text)
      in case run_observers h atr key (observers f) (ctrl f) of
           Inl e \<Rightarrow> Inl e
         | Inr c \<Rightarrow> Inr (f\<lparr>attrs := atr, ctrl := c\<rparr>))"

section \<open>The cross-field match rule\<close>

text \<open>
  \<^verbatim>\<open>hzPasswordMatch\<close> works on two controllers, \<^verbatim>\<open>ctrl\<close> of the field that carries the
  directive and \<^verbatim>\<open>scope.pw\<close> of the field it names, and on two elements.  Controllers
  and elements are objects: \<open>heap\<close> holds the controllers by reference, \<open>listeners\<close> the
  event registrations of each element, and \<open>jquery\<close> gives the elements a selector
  matches in the document, or raises on a selector it cannot parse.  \<open>pw\<close> is \<open>None\<close>
  when \<^verbatim>\<open>scope.pw\<close> is \<^verbatim>\<open>undefined\<close>.
\<close>

datatype evtype = Keyup | Change | Keydown | Keypress | Input | Focus | Blur | Click

datatype listener = Fn_passwordCheck

record match_scope =
  heap :: "nat \<Rightarrow> ngModelController"
  ctrl_ref :: nat
  pw :: "nat option"
  element :: nat
  jquery :: "string \<Rightarrow> error + nat list"
  listeners :: "nat \<Rightarrow> (evtype \<times> listener) list"

text \<open>
  \<^verbatim>\<open>scope.$apply\<close> runs the function it is given; it catches what the function raises
  and hands it to the framework's exception handler, which by default logs it, so that
  \<^verbatim>\<open>$apply\<close> returns and the form is as it was.
\<close>

definition scope_apply ::
  "(match_scope \<Rightarrow> error + match_scope) \<Rightarrow> match_scope \<Rightarrow> error + match_scope" where
  "scope_apply fn s = (case fn s of Inl e \<Rightarrow> Inr s | Inr s' \<Rightarrow> Inr s')"

text \<open>
  \<^verbatim>\<open>passwordCheck\<close> (lines 196-201).  Inside the function given to \<^verbatim>\<open>$apply\<close>, reading
  \<^verbatim>\<open>scope.pw.$modelValue\<close> raises when \<^verbatim>\<open>scope.pw\<close> is \<^verbatim>\<open>undefined\<close>.
\<close>

definition passwordCheck :: "match_scope \<Rightarrow> error + match_scope" where
  "passwordCheck s =
     scope_apply
       (\<lambda>s. case pw s of
              None \<Rightarrow> Inl TypeError
            | Some p \<Rightarrow>
                (let match = strict_eq (modelValue (heap s (ctrl_ref s))) (modelValue (heap s p))
                 in Inr (s\<lparr>heap := (heap s)(ctrl_ref s :=
                      setValidity (heap s (ctrl_ref s)) ''match'' match)\<rparr>)))
       s"

text \<open>\<^verbatim>\<open>elems.on('keyup change', fn)\<close>: on each element, one registration per event type.\<close>

definition on ::
  "nat list \<Rightarrow> evtype list \<Rightarrow> listener \<Rightarrow> (nat \<Rightarrow> (evtype \<times> listener) list) \<Rightarrow>
     (nat \<Rightarrow> (evtype \<times> listener) list)" where
  "on elems evs fn reg = fold (\<lambda>e r. r(e := r e @ map (\<lambda>ev. (ev, fn)) evs)) elems reg"

text \<open>
  The link function (lines 193-209).  It does not run inside \<^verbatim>\<open>$apply\<close>:
  \<^verbatim>\<open>scope.pw.$name\<close> raises without a \<^verbatim>\<open>scope.pw\<close>.
\<close>

definition link_hzPasswordMatch :: "match_scope \<Rightarrow> error + match_scope" where
  "link_hzPasswordMatch s =
     (case pw s of
        None \<Rightarrow> Inl TypeError
      | Some p \<Rightarrow>
          (case jquery s (''#'' @ ctrl_name (heap s p)) of
             Inl e \<Rightarrow> Inl e
           | Inr pwElement \<Rightarrow>
               (let reg = on pwElement [Keyup, Change] Fn_passwordCheck (listeners s)
                in Inr (s\<lparr>listeners := on [element s] [Keyup, Change] Fn_passwordCheck reg\<rparr>))))"

text \<open>
  An event of some type on an element runs the listeners registered there for that
  type, in the order of registration.  Between events the framework may store a new
  model value in a controller.
\<close>

fun run_listeners :: "listener list \<Rightarrow> match_scope \<Rightarrow> error + match_scope" where
  "run_listeners [] s = Inr s"
| "run_listeners (Fn_passwordCheck # fns) s =
     (case passwordCheck s of Inl e \<Rightarrow> Inl e | Inr s' \<Rightarrow> run_listeners fns s')"

definition trigger :: "match_scope \<Rightarrow> evtype \<Rightarrow> nat \<Rightarrow> error + match_scope" where
  "trigger s ev target =
     run_listeners (map snd (filter (\<lambda>r. fst r = ev) (listeners s target))) s"

datatype match_event = Dom evtype nat | SetModel nat jsval

fun match_step :: "match_scope \<Rightarrow> match_event \<Rightarrow> error + match_scope" where
  "match_step s (Dom ev target) = trigger s ev target"
| "match_step s (SetModel r v) = Inr (s\<lparr>heap := (heap s)(r := (heap s r)\<lparr>modelValue := v\<rparr>)\<rparr>)"

fun run_events :: "match_scope \<Rightarrow> match_event list \<Rightarrow> error + match_scope" where
  "run_events s [] = Inr s"
| "run_events s (e # es) =
     (case match_step s e of Inl err \<Rightarrow> Inl err | Inr s' \<Rightarrow> run_events s' es)"

section \<open>The outcome of a bound check\<close>

text \<open>
  The boolean a bound-check rule writes, for a threshold \<open>m\<close> and a value \<open>v\<close>: the flag
  is false exactly when the threshold is defined, the value is not empty and the value
  lies beyond the threshold.
\<close>

definition within_max :: "host \<Rightarrow> jsval \<Rightarrow> jsval \<Rightarrow> bool" where
  "within_max h m v = (\<not> (isDefined m \<and> \<not> isEmpty v \<and> js_gt (StringToNumber h) v m))"

definition within_min :: "host \<Rightarrow> jsval \<Rightarrow> jsval \<Rightarrow> bool" where
  "within_min h m v = (\<not> (isDefined m \<and> \<not> isEmpty v \<and> js_lt (StringToNumber h) v m))"

section \<open>An example host, field and form\<close>

text \<open>
  Closed instances need a concrete host.  The example conversion is the one of ES5
  9.3.1 on the empty string and on strings of at most fifteen decimal digits, and the
  example scope evaluates the expression \<^verbatim>\<open>null\<close>, decimal literals and the empty
  expression, whose value is \<^verbatim>\<open>undefined\<close>, and rejects every other text.  The
  instances apply them to such strings only.
\<close>

definition is_decimal :: "nat list \<Rightarrow> bool" where
  "is_decimal us = (us \<noteq> [] \<and> length us \<le> 15 \<and> list_all (\<lambda>u. 48 \<le> u \<and> u \<le> 57) us)"

definition decimal :: "nat list \<Rightarrow> real" where
  "decimal us = real (foldl (\<lambda>n u. 10 * n + (u - 48)) 0 us)"

definition example_StringToNumber :: "jsstring \<Rightarrow> jsnum" where
  "example_StringToNumber s =
     (if s = [] then Finite 0
      else if is_decimal (map unat s) then Finite (decimal (map unat s))
      else NaN)"

definition example_eval :: "string \<Rightarrow> error + jsval" where
  "example_eval e =
     (if e = [] then Inr JUndefined
      else if e = ''null'' then Inr JNull
      else if is_decimal (map of_char e) then Inr (JNum (Finite (decimal (map of_char e))))
      else Inl SyntaxError)"

definition example_host :: host where
  "example_host = \<lparr>StringToNumber = example_StringToNumber, scope_eval = example_eval\<rparr>"

definition example_ctrl :: ngModelController where
  "example_ctrl = \<lparr>ctrl_name = ''quota'', viewValue = JUndefined, modelValue = JUndefined,
     validity = Map.empty, parsers = [], formatters = []\<rparr>"

text \<open>
  A field with the model value 15 and the attribute text \<^verbatim>\<open>20\<close>, linked to
  \<^verbatim>\<open>validateNumberMax\<close>, and a form whose confirmation field (controller 0, element 0)
  names the password field \<^verbatim>\<open>psw\<close> (controller 1, element 1, found by its id).
\<close>

definition example_field :: field where
  "example_field =
     (case link_validateNumberMax (Some (example_ctrl\<lparr>modelValue := JNum (Finite 15)\<rparr>)) [] of
        (None, obs) \<Rightarrow> \<lparr>ctrl = example_ctrl, attrs = (\<lambda>a. ''20''), observers = obs\<rparr>
      | (Some c, obs) \<Rightarrow> \<lparr>ctrl = c, attrs = (\<lambda>a. ''20''), observers = obs\<rparr>)"



definition example_form :: match_scope where
  "example_form =
     \<lparr>heap = (\<lambda>r. if r = 1 then example_ctrl\<lparr>ctrl_name := ''psw''\<rparr>
                  else example_ctrl\<lparr>ctrl_name := ''cnf''\<rparr>),
      ctrl_ref = 0, pw = Some 1, element = 0,
      jquery = (\<lambda>sel. if sel = ''#psw'' then Inr [1] else Inr []),
      listeners = (\<lambda>e. [])\<rparr>"

section \<open>Basic facts\<close>

lemmas example_defs = example_host_def example_eval_def example_StringToNumber_def
  is_decimal_def decimal_def ustr_def example_ctrl_def

lemma js_gt_Finite: "js_gt r (JNum (Finite x)) (JNum (Finite y)) = (y < x)"
  by (simp add: js_gt_def)

lemma js_lt_Finite: "js_lt r (JNum (Finite x)) (JNum (Finite y)) = (x < y)"
  by (simp add: js_lt_def)

text \<open>Strict equality is equality of values, but for \<^verbatim>\<open>NaN\<close>.\<close>

lemma strict_eq_iff: "strict_eq a b = (a = b \<and> a \<noteq> JNum NaN)"
  by (cases a; cases b) auto

lemma maxValidator_eq:
  "scope_eval h (atr ''validateNumberMax'') = Inr m \<Longrightarrow>
   maxValidator h atr c v = Inr (setValidity c ''validateNumberMax'' (within_max h m v), v)"
  by (simp add: maxValidator_def within_max_def)

lemma minValidator_eq:
  "scope_eval h (atr ''validateNumberMin'') = Inr m \<Longrightarrow>
   minValidator h atr c v = Inr (setValidity c ''validateNumberMin'' (within_min h m v), v)"
  by (simp add: minValidator_def within_min_def)

lemma setValidity_simps:
  "validity (setValidity c k b) = (validity c)(k \<mapsto> b)"
  "modelValue (setValidity c k b) = modelValue c"
  "viewValue (setValidity c k b) = viewValue c"
  "parsers (setValidity c k b) = parsers c"
  "formatters (setValidity c k b) = formatters c"
  "ctrl_name (setValidity c k b) = ctrl_name c"
  by (simp_all add: setValidity_def)

text \<open>
  A pipeline of bound-check validators whose threshold expressions evaluate: the value
  passes through, and each validator in it leaves its flag as the check of that value.
\<close>

lemma run_formatters_bound:
  assumes "set fns \<subseteq> {Fn_maxValidator, Fn_minValidator}"
    and "scope_eval h (atr ''validateNumberMax'') = Inr mx"
    and "scope_eval h (atr ''validateNumberMin'') = Inr mn"
  shows "\<exists>c'. run_formatters h atr fns c v = Inr (c', v) \<and>
        modelValue c' = modelValue c \<and> viewValue c' = viewValue c \<and>
        validity c' ''validateNumberMax'' =
          (if Fn_maxValidator \<in> set fns then Some (within_max h mx v)
           else validity c ''validateNumberMax'') \<and>
        validity c' ''validateNumberMin'' =
          (if Fn_minValidator \<in> set fns then Some (within_min h mn v)
           else validity c ''validateNumberMin'') \<and>
        (\<forall>k. k \<noteq> ''validateNumberMax'' \<and> k \<noteq> ''validateNumberMin'' \<longrightarrow>
           validity c' k = validity c k)"
  using assms(1)
proof (induction fns arbitrary: c)
  case Nil
  then show ?case by simp
next
  case (Cons fn fns)
  from Cons.prems have rest: "set fns \<subseteq> {Fn_maxValidator, Fn_minValidator}"
    and fn: "fn = Fn_maxValidator \<or> fn = Fn_minValidator" by auto
  from fn show ?case
  proof
    assume m: "fn = Fn_maxValidator"
    let ?upd = "setValidity c ''validateNumberMax'' (within_max h mx v)"
    from Cons.IH [OF rest, of ?upd] obtain c' where
      "run_formatters h atr fns ?upd v = Inr (c', v)" and
      "modelValue c' = modelValue ?upd" "viewValue c' = viewValue ?upd" and
      "validity c' ''validateNumberMax'' =
          (if Fn_maxValidator \<in> set fns then Some (within_max h mx v)
           else validity ?upd ''validateNumberMax'')" and
      "validity c' ''validateNumberMin'' =
          (if Fn_minValidator \<in> set fns then Some (within_min h mn v)
           else validity ?upd ''validateNumberMin'')" and
      "\<forall>k. k \<noteq> ''validateNumberMax'' \<and> k \<noteq> ''validateNumberMin'' \<longrightarrow>
           validity c' k = validity ?upd k"
      by blast
    then show ?thesis using m
      by (simp add: maxValidator_eq [of h atr, OF assms(2)] setValidity_simps)
  next
    assume m: "fn = Fn_minValidator"
    let ?upd = "setValidity c ''validateNumberMin'' (within_min h mn v)"
    from Cons.IH [OF rest, of ?upd] obtain c' where
      "run_formatters h atr fns ?upd v = Inr (c', v)" and
      "modelValue c' = modelValue ?upd" "viewValue c' = viewValue ?upd" and
      "validity c' ''validateNumberMax'' =
          (if Fn_maxValidator \<in> set fns then Some (within_max h mx v)
           else validity ?upd ''validateNumberMax'')" and
      "validity c' ''validateNumberMin'' =
          (if Fn_minValidator \<in> set fns then Some (within_min h mn v)
           else validity ?upd ''validateNumberMin'')" and
      "\<forall>k. k \<noteq> ''validateNumberMax'' \<and> k \<noteq> ''validateNumberMin'' \<longrightarrow>
           validity c' k = validity ?upd k"
      by blast
    then show ?thesis using m
      by (simp add: minValidator_eq [of h atr, OF assms(3)] setValidity_simps)
  qed
qed

text \<open>
  No bound-check validator returns \<^verbatim>\<open>undefined\<close> for another value, so on such a value
  the parsers run like the formatters.
\<close>

lemma run_parsers_bound:
  assumes "set fns \<subseteq> {Fn_maxValidator, Fn_minValidator}"
    and "scope_eval h (atr ''validateNumberMax'') = Inr mx"
    and "scope_eval h (atr ''validateNumberMin'') = Inr mn"
    and "v \<noteq> JUndefined"
  shows "run_parsers h atr fns c v = run_formatters h atr fns c v"
  using assms(1)
proof (induction fns arbitrary: c)
  case Nil
  then show ?case by simp
next
  case (Cons fn fns)
  from Cons.prems have rest: "set fns \<subseteq> {Fn_maxValidator, Fn_minValidator}"
    and fn: "fn = Fn_maxValidator \<or> fn = Fn_minValidator" by auto
  from fn show ?case
  proof
    assume "fn = Fn_maxValidator"
    with Cons.IH [OF rest] assms(4) show ?thesis
      by (simp add: maxValidator_eq [of h atr, OF assms(2)] isUndefined_def)
  next
    assume "fn = Fn_minValidator"
    with Cons.IH [OF rest] assms(4) show ?thesis
      by (simp add: minValidator_eq [of h atr, OF assms(3)] isUndefined_def)
  qed
qed


section \<open>The bound-check rules\<close>

text \<open>
  Claim C1.  One evaluation of the max rule, for every host, attribute text, controller
  and value \<open>v\<close>: when the threshold expression evaluates to \<open>m\<close>, the rule returns and
  the flag \<^verbatim>\<open>validateNumberMax\<close> is false if and only if \<open>m\<close> is defined, \<open>v\<close> is not
  empty and \<^verbatim>\<open>v > m\<close>, and true in every other case.  For a finite number \<open>x\<close> against
  a finite threshold \<open>y\<close> the flag is \<open>x \<le> y\<close>.
\<close>

theorem maxValidator_flag:
  assumes "scope_eval h (atr ''validateNumberMax'') = Inr m"
  shows "\<exists>c'. maxValidator h atr c v = Inr (c', v) \<and>
           validity c' ''validateNumberMax'' =
             Some (\<not> (isDefined m \<and> \<not> isEmpty v \<and> js_gt (StringToNumber h) v m)) \<and>
           (\<forall>x y. v = JNum (Finite x) \<and> m = JNum (Finite y) \<longrightarrow>
              validity c' ''validateNumberMax'' = Some (x \<le> y))"
  using assms
  by (auto simp: maxValidator_def setValidity_def isDefined_def isEmpty_def isUndefined_def
      js_gt_Finite)

theorem maxValidator_flag_witness:
  "scope_eval example_host ''10'' = Inr (JNum (Finite 10)) \<and>
   (\<exists>c'. maxValidator example_host (\<lambda>a. ''10'') example_ctrl (JStr (ustr ''11'')) =
            Inr (c', JStr (ustr ''11'')) \<and>
         validity c' ''validateNumberMax'' = Some False) \<and>
   (\<exists>c'. maxValidator example_host (\<lambda>a. ''10'') example_ctrl (JNum (Finite 10)) =
            Inr (c', JNum (Finite 10)) \<and>
         validity c' ''validateNumberMax'' = Some True)"
proof -
  have e: "scope_eval example_host ''10'' = Inr (JNum (Finite 10))"
    by (simp add: example_defs)
  have g: "js_gt (StringToNumber example_host) (JStr (ustr ''11'')) (JNum (Finite 10))"
    by (simp add: js_gt_def example_defs)
  have n: "\<not> isEmpty (JStr (ustr ''11''))" "isDefined (JNum (Finite 10))"
    by (simp_all add: isEmpty_def isUndefined_def isDefined_def ustr_def)
  from maxValidator_flag [of example_host "\<lambda>a. ''10''" "JNum (Finite 10)" example_ctrl
      "JStr (ustr ''11'')", OF e] g n
  have a: "\<exists>c'. maxValidator example_host (\<lambda>a. ''10'') example_ctrl (JStr (ustr ''11'')) =
            Inr (c', JStr (ustr ''11'')) \<and>
         validity c' ''validateNumberMax'' = Some False"
    by auto
  from maxValidator_flag [of example_host "\<lambda>a. ''10''" "JNum (Finite 10)" example_ctrl
      "JNum (Finite 10)", OF e]
  have b: "\<exists>c'. maxValidator example_host (\<lambda>a. ''10'') example_ctrl (JNum (Finite 10)) =
            Inr (c', JNum (Finite 10)) \<and>
         validity c' ''validateNumberMax'' = Some True"
    by auto
  from e a b show ?thesis by blast
qed

text \<open>
  Claim C2.  One evaluation of the min rule: when the threshold expression evaluates to
  \<open>m\<close>, the rule returns and the flag \<^verbatim>\<open>validateNumberMin\<close> is false if and only if \<open>m\<close>
  is defined, \<open>v\<close> is not empty and \<^verbatim>\<open>v < m\<close>, and true in every other case.  For a
  finite number \<open>x\<close> against a finite threshold \<open>y\<close> the flag is \<open>y \<le> x\<close>.
\<close>

theorem minValidator_flag:
  assumes "scope_eval h (atr ''validateNumberMin'') = Inr m"
  shows "\<exists>c'. minValidator h atr c v = Inr (c', v) \<and>
           validity c' ''validateNumberMin'' =
             Some (\<not> (isDefined m \<and> \<not> isEmpty v \<and> js_lt (StringToNumber h) v m)) \<and>
           (\<forall>x y. v = JNum (Finite x) \<and> m = JNum (Finite y) \<longrightarrow>
              validity c' ''validateNumberMin'' = Some (y \<le> x))"
  using assms
  by (auto simp: minValidator_def setValidity_def isDefined_def isEmpty_def isUndefined_def
      js_lt_Finite)

theorem minValidator_flag_witness:
  "scope_eval example_host ''10'' = Inr (JNum (Finite 10)) \<and>
   (\<exists>c'. minValidator example_host (\<lambda>a. ''10'') example_ctrl (JStr (ustr ''9'')) =
            Inr (c', JStr (ustr ''9'')) \<and>
         validity c' ''validateNumberMin'' = Some False) \<and>
   (\<exists>c'. minValidator example_host (\<lambda>a. ''10'') example_ctrl (JNum (Finite 10)) =
            Inr (c', JNum (Finite 10)) \<and>
         validity c' ''validateNumberMin'' = Some True)"
proof -
  have e: "scope_eval example_host ''10'' = Inr (JNum (Finite 10))"
    by (simp add: example_defs)
  have g: "js_lt (StringToNumber example_host) (JStr (ustr ''9'')) (JNum (Finite 10))"
    by (simp add: js_lt_def example_defs)
  have n: "\<not> isEmpty (JStr (ustr ''9''))" "isDefined (JNum (Finite 10))"
    by (simp_all add: isEmpty_def isUndefined_def isDefined_def ustr_def)
  from minValidator_flag [of example_host "\<lambda>a. ''10''" "JNum (Finite 10)" example_ctrl
      "JStr (ustr ''9'')", OF e] g n
  have a: "\<exists>c'. minValidator example_host (\<lambda>a. ''10'') example_ctrl (JStr (ustr ''9'')) =
            Inr (c', JStr (ustr ''9'')) \<and>
         validity c' ''validateNumberMin'' = Some False"
    by auto
  from minValidator_flag [of example_host "\<lambda>a. ''10''" "JNum (Finite 10)" example_ctrl
      "JNum (Finite 10)", OF e]
  have b: "\<exists>c'. minValidator example_host (\<lambda>a. ''10'') example_ctrl (JNum (Finite 10)) =
            Inr (c', JNum (Finite 10)) \<and>
         validity c' ''validateNumberMin'' = Some True"
    by auto
  from e a b show ?thesis by blast
qed

text \<open>
  Claim C7, amended.  A validator whose threshold expression evaluates returns the value
  it was given and leaves the view and model values of the controller alone, whether
  the check passes or fails.  On a field whose pipelines hold bound-check validators
  only, a view change to \<open>v\<close> and a model change to \<open>v\<close> therefore end with \<open>v\<close> as view
  value and as model value.  When \<^verbatim>\<open>scope.$eval\<close> raises on the threshold expression, the
  validator raises the same and returns nothing.
\<close>

theorem bound_check_returns_value:
  "(scope_eval h (atr ''validateNumberMax'') = Inr mx \<longrightarrow>
      (\<exists>c'. maxValidator h atr c v = Inr (c', v) \<and>
            viewValue c' = viewValue c \<and> modelValue c' = modelValue c)) \<and>
   (scope_eval h (atr ''validateNumberMin'') = Inr mn \<longrightarrow>
      (\<exists>c'. minValidator h atr c v = Inr (c', v) \<and>
            viewValue c' = viewValue c \<and> modelValue c' = modelValue c)) \<and>
   (scope_eval h (atr ''validateNumberMax'') = Inr mx \<and>
    scope_eval h (atr ''validateNumberMin'') = Inr mn \<and>
    set (parsers c) \<subseteq> {Fn_maxValidator, Fn_minValidator} \<longrightarrow>
      (\<exists>f'. field_step h \<lparr>ctrl = c, attrs = atr, observers = obs\<rparr> (ViewChange v) = Inr f' \<and>
            viewValue (ctrl f') = v \<and> modelValue (ctrl f') = v)) \<and>
   (scope_eval h (atr ''validateNumberMax'') = Inr mx \<and>
    scope_eval h (atr ''validateNumberMin'') = Inr mn \<and>
    set (formatters c) \<subseteq> {Fn_maxValidator, Fn_minValidator} \<longrightarrow>
      (\<exists>f'. field_step h \<lparr>ctrl = c, attrs = atr, observers = obs\<rparr> (ModelChange v) = Inr f' \<and>
            viewValue (ctrl f') = v \<and> modelValue (ctrl f') = v)) \<and>
   (scope_eval h (atr ''validateNumberMax'') = Inl e \<longrightarrow> maxValidator h atr c v = Inl e) \<and>
   (scope_eval h (atr ''validateNumberMin'') = Inl e \<longrightarrow> minValidator h atr c v = Inl e)"
proof -
  have fmax: "\<exists>c'. maxValidator h atr c v = Inr (c', v) \<and>
            viewValue c' = viewValue c \<and> modelValue c' = modelValue c"
    if "scope_eval h (atr ''validateNumberMax'') = Inr mx"
    by (simp add: maxValidator_eq [of h atr, OF that] setValidity_simps)
  have fmin: "\<exists>c'. minValidator h atr c v = Inr (c', v) \<and>
            viewValue c' = viewValue c \<and> modelValue c' = modelValue c"
    if "scope_eval h (atr ''validateNumberMin'') = Inr mn"
    by (simp add: minValidator_eq [of h atr, OF that] setValidity_simps)
  have view: "\<exists>f'. field_step h \<lparr>ctrl = c, attrs = atr, observers = obs\<rparr> (ViewChange v) = Inr f' \<and>
            viewValue (ctrl f') = v \<and> modelValue (ctrl f') = v"
    if emax: "scope_eval h (atr ''validateNumberMax'') = Inr mx"
      and emin: "scope_eval h (atr ''validateNumberMin'') = Inr mn"
      and ps: "set (parsers c) \<subseteq> {Fn_maxValidator, Fn_minValidator}"
  proof (cases "v = JUndefined")
    case True
    then show ?thesis by (simp add: isUndefined_def)
  next
    case False
    from run_formatters_bound [OF ps emax emin, of "c\<lparr>viewValue := v\<rparr>" v]
    obtain c' where "run_formatters h atr (parsers c) (c\<lparr>viewValue := v\<rparr>) v = Inr (c', v)"
      "viewValue c' = viewValue (c\<lparr>viewValue := v\<rparr>)" by blast
    with False show ?thesis
      by (simp add: run_parsers_bound [OF ps emax emin False] isUndefined_def)
  qed
  have model: "\<exists>f'. field_step h \<lparr>ctrl = c, attrs = atr, observers = obs\<rparr> (ModelChange v) = Inr f' \<and>
            viewValue (ctrl f') = v \<and> modelValue (ctrl f') = v"
    if emax: "scope_eval h (atr ''validateNumberMax'') = Inr mx"
      and emin: "scope_eval h (atr ''validateNumberMin'') = Inr mn"
      and fs: "set (formatters c) \<subseteq> {Fn_maxValidator, Fn_minValidator}"
  proof -
    from fs have "set (rev (formatters c)) \<subseteq> {Fn_maxValidator, Fn_minValidator}" by simp
    from run_formatters_bound [OF this emax emin, of "c\<lparr>modelValue := v\<rparr>" v]
    obtain c' where "run_formatters h atr (rev (formatters c)) (c\<lparr>modelValue := v\<rparr>) v = Inr (c', v)"
      "modelValue c' = modelValue (c\<lparr>modelValue := v\<rparr>)" by blast
    then show ?thesis by simp
  qed
  have rmax: "maxValidator h atr c v = Inl e" if "scope_eval h (atr ''validateNumberMax'') = Inl e"
    using that by (simp add: maxValidator_def)
  have rmin: "minValidator h atr c v = Inl e" if "scope_eval h (atr ''validateNumberMin'') = Inl e"
    using that by (simp add: minValidator_def)
  from fmax fmin view model rmax rmin show ?thesis by blast
qed

text \<open>The value \<^verbatim>\<open>25\<close> fails the check against 20 and reaches the model all the same.\<close>

theorem bound_check_returns_value_witness:
  "\<exists>f'. field_step example_host example_field (ViewChange (JStr (ustr ''25''))) = Inr f' \<and>
        viewValue (ctrl f') = JStr (ustr ''25'') \<and> modelValue (ctrl f') = JStr (ustr ''25'') \<and>
        validity (ctrl f') ''validateNumberMax'' = Some False"
proof -
  let ?lnk = "example_ctrl\<lparr>modelValue := JNum (Finite 15), parsers := [Fn_maxValidator],
     formatters := [Fn_maxValidator]\<rparr>"
  let ?obs = "[(''validateNumberMax'', Obs_validateNumberMax)]"
  have f: "example_field = \<lparr>ctrl = ?lnk, attrs = (\<lambda>a. ''20''), observers = ?obs\<rparr>"
    by (simp add: example_field_def link_validateNumberMax_def example_ctrl_def)
  have e: "scope_eval example_host ''20'' = Inr (JNum (Finite 20))"
    by (simp add: example_defs)
  have ps: "set (parsers ?lnk) \<subseteq> {Fn_maxValidator, Fn_minValidator}" by simp
  from bound_check_returns_value [of example_host "\<lambda>a. ''20''" "JNum (Finite 20)"
      ?lnk "JStr (ustr ''25'')" "JNum (Finite 20)" ?obs] e ps f
  obtain f' where f': "field_step example_host example_field (ViewChange (JStr (ustr ''25''))) = Inr f'"
    "viewValue (ctrl f') = JStr (ustr ''25'')" "modelValue (ctrl f') = JStr (ustr ''25'')"
    by auto
  have "validity (ctrl f') ''validateNumberMax'' = Some False"
    using f'(1) unfolding f
    by (auto simp: maxValidator_def setValidity_def example_defs isDefined_def isEmpty_def
        isUndefined_def js_gt_def)
  with f' show ?thesis by blast
qed

text \<open>
  The claim as stated fails when the attribute text is \<^verbatim>\<open>1 +\<close>, which the expression
  parser rejects: line 60 raises before line 68 can return the value \<^verbatim>\<open>5\<close>.
\<close>

theorem bound_check_raises_counterexample:
  "scope_eval example_host ''1 +'' = Inl SyntaxError \<and>
   maxValidator example_host (\<lambda>a. ''1 +'') example_ctrl (JStr (ustr ''5'')) = Inl SyntaxError"
  by (simp add: maxValidator_def example_defs)

text \<open>
  Claim C8, amended.  When the threshold expression evaluates to \<^verbatim>\<open>undefined\<close>, or to
  anything while the value is empty, a bound-check rule sets its flag to true, and the
  comparison is not consulted: the outcome is the same under any other string-to-number
  conversion \<open>r\<close>.  When \<^verbatim>\<open>scope.$eval\<close> raises on the threshold expression, the rule
  raises the same and writes no flag, whatever the value.
\<close>

theorem bound_check_no_constraint:
  "(scope_eval h (atr ''validateNumberMax'') = Inr JUndefined \<or>
    isEmpty v \<and> scope_eval h (atr ''validateNumberMax'') = Inr m \<longrightarrow>
      (\<exists>c'. maxValidator h atr c v = Inr (c', v) \<and>
            validity c' ''validateNumberMax'' = Some True) \<and>
      maxValidator (h\<lparr>StringToNumber := r\<rparr>) atr c v = maxValidator h atr c v) \<and>
   (scope_eval h (atr ''validateNumberMin'') = Inr JUndefined \<or>
    isEmpty v \<and> scope_eval h (atr ''validateNumberMin'') = Inr m \<longrightarrow>
      (\<exists>c'. minValidator h atr c v = Inr (c', v) \<and>
            validity c' ''validateNumberMin'' = Some True) \<and>
      minValidator (h\<lparr>StringToNumber := r\<rparr>) atr c v = minValidator h atr c v) \<and>
   (scope_eval h (atr ''validateNumberMax'') = Inl e \<longrightarrow> maxValidator h atr c v = Inl e) \<and>
   (scope_eval h (atr ''validateNumberMin'') = Inl e \<longrightarrow> minValidator h atr c v = Inl e)"
  by (auto simp: maxValidator_def minValidator_def setValidity_def isDefined_def)

theorem bound_check_no_constraint_witness:
  "(\<exists>c'. maxValidator example_host (\<lambda>a. []) example_ctrl (JStr (ustr ''11'')) =
           Inr (c', JStr (ustr ''11'')) \<and>
         validity c' ''validateNumberMax'' = Some True) \<and>
   (\<exists>c'. minValidator example_host (\<lambda>a. ''10'') example_ctrl (JStr []) = Inr (c', JStr []) \<and>
         validity c' ''validateNumberMin'' = Some True)"
proof -
  have a: "scope_eval example_host [] = Inr JUndefined \<or>
      isEmpty (JStr (ustr ''11'')) \<and> scope_eval example_host [] = Inr JUndefined"
    by (simp add: example_defs)
  have b: "scope_eval example_host ''10'' = Inr JUndefined \<or>
      isEmpty (JStr []) \<and> scope_eval example_host ''10'' = Inr (JNum (Finite 10))"
    by (simp add: isEmpty_def example_defs)
  from bound_check_no_constraint [of example_host "\<lambda>a. []" "JStr (ustr ''11'')" JUndefined
      example_ctrl]
    bound_check_no_constraint [of example_host "\<lambda>a. ''10''" "JStr []" "JNum (Finite 10)"
      example_ctrl] a b
  show ?thesis by blast
qed

text \<open>
  The claim as stated fails on the empty string when the attribute text is \<^verbatim>\<open>1 +\<close>:
  line 60 raises before the emptiness test of line 61, and no flag is written.
\<close>

theorem empty_value_raises_counterexample:
  "isEmpty (JStr []) \<and>
   maxValidator example_host (\<lambda>a. ''1 +'') example_ctrl (JStr []) = Inl SyntaxError"
  by (simp add: maxValidator_def example_defs isEmpty_def)

text \<open>
  Claim C10.  A threshold expression that evaluates to \<^verbatim>\<open>null\<close> is no exemption:
  \<^verbatim>\<open>null\<close> is defined, converts to the number 0 and is compared.  A non-empty value
  that converts to the finite number \<open>x\<close> is greater than \<^verbatim>\<open>null\<close> exactly when \<open>x\<close> is
  positive, and its flag \<^verbatim>\<open>validateNumberMax\<close> is \<open>x \<le> 0\<close>: false for every positive
  value, true for zero and for every negative value.
\<close>

theorem null_threshold_compared:
  assumes "scope_eval h (atr ''validateNumberMax'') = Inr JNull"
    and "\<not> isEmpty v"
    and "ToNumber (StringToNumber h) v = Finite x"
  shows "isDefined JNull \<and> ToNumber (StringToNumber h) JNull = Finite 0 \<and>
         js_gt (StringToNumber h) v JNull = (0 < x) \<and>
         (\<exists>c'. maxValidator h atr c v = Inr (c', v) \<and>
               validity c' ''validateNumberMax'' = Some (x \<le> 0))"
proof -
  have "js_less (StringToNumber h) JNull v = Some (0 < x)"
    using assms(3) by (cases v) simp_all
  then have gt: "js_gt (StringToNumber h) v JNull = (0 < x)" by (simp add: js_gt_def)
  with assms(1,2) show ?thesis
    by (auto simp: maxValidator_def setValidity_def isDefined_def)
qed

text \<open>
  Under the threshold \<^verbatim>\<open>null\<close> the value 1 is invalid and the value -1 is valid; under
  the threshold \<^verbatim>\<open>undefined\<close> the value 1 is valid.
\<close>

theorem null_threshold_compared_witness:
  "scope_eval example_host ''null'' = Inr JNull \<and>
   (\<exists>c'. maxValidator example_host (\<lambda>a. ''null'') example_ctrl (JNum (Finite 1)) =
           Inr (c', JNum (Finite 1)) \<and>
         validity c' ''validateNumberMax'' = Some False) \<and>
   (\<exists>c'. maxValidator example_host (\<lambda>a. ''null'') example_ctrl (JNum (Finite (- 1))) =
           Inr (c', JNum (Finite (- 1))) \<and>
         validity c' ''validateNumberMax'' = Some True) \<and>
   (\<exists>c'. maxValidator example_host (\<lambda>a. []) example_ctrl (JNum (Finite 1)) =
           Inr (c', JNum (Finite 1)) \<and>
         validity c' ''validateNumberMax'' = Some True)"
proof -
  have a: "scope_eval example_host ''null'' = Inr JNull" by (simp add: example_defs)
  have b: "\<not> isEmpty (JNum (Finite 1))" "\<not> isEmpty (JNum (Finite (- 1)))"
    by (simp_all add: isEmpty_def isUndefined_def)
  have c: "ToNumber (StringToNumber example_host) (JNum (Finite 1)) = Finite 1"
    "ToNumber (StringToNumber example_host) (JNum (Finite (- 1))) = Finite (- 1)" by simp_all
  from null_threshold_compared [of example_host "\<lambda>a. ''null''", OF a b(1) c(1), of example_ctrl]
  have p: "\<exists>c'. maxValidator example_host (\<lambda>a. ''null'') example_ctrl (JNum (Finite 1)) =
           Inr (c', JNum (Finite 1)) \<and>
         validity c' ''validateNumberMax'' = Some False"
    by simp
  from null_threshold_compared [of example_host "\<lambda>a. ''null''", OF a b(2) c(2), of example_ctrl]
  have n: "\<exists>c'. maxValidator example_host (\<lambda>a. ''null'') example_ctrl (JNum (Finite (- 1))) =
           Inr (c', JNum (Finite (- 1))) \<and>
         validity c' ''validateNumberMax'' = Some True"
    by simp
  have u: "\<exists>c'. maxValidator example_host (\<lambda>a. []) example_ctrl (JNum (Finite 1)) =
           Inr (c', JNum (Finite 1)) \<and>
         validity c' ''validateNumberMax'' = Some True"
    by (simp add: maxValidator_def setValidity_def isDefined_def example_defs)
  from a p n u show ?thesis by blast
qed

subsection \<open>The three triggers\<close>





section \<open>The non-empty rule\<close>

text \<open>
  Claim C3, amended.  For a string view value the rule does what the claim says: the
  empty string gets the flag \<^verbatim>\<open>notBlank\<close> false and \<^verbatim>\<open>undefined\<close> is returned, so the
  model value is left unset; any other string gets the flag true and is returned
  unchanged, so the model receives it.  A view value without a \<^verbatim>\<open>length\<close> property (a
  number or a boolean) is handled like the empty string, and on \<^verbatim>\<open>undefined\<close> and
  \<^verbatim>\<open>null\<close> reading the length raises a \<^verbatim>\<open>TypeError\<close>.
\<close>

theorem notBlank_by_length:
  "notBlank c vv =
     (case vv of
        JUndefined \<Rightarrow> Inl TypeError
      | JNull \<Rightarrow> Inl TypeError
      | JBool b \<Rightarrow> Inr (setValidity c ''notBlank'' False, JUndefined)
      | JNum n \<Rightarrow> Inr (setValidity c ''notBlank'' False, JUndefined)
      | JStr s \<Rightarrow>
          if s = [] then Inr (setValidity c ''notBlank'' False, JUndefined)
          else Inr (setValidity c ''notBlank'' True, vv)) \<and>
   (set (parsers c) \<subseteq> {Fn_maxValidator, Fn_minValidator} \<and>
    scope_eval h (atr ''validateNumberMax'') = Inr mx \<and>
    scope_eval h (atr ''validateNumberMin'') = Inr mn \<longrightarrow>
      (\<exists>f'. field_step h \<lparr>ctrl = link_notBlank c, attrs = atr, observers = obs\<rparr>
               (ViewChange (JStr s)) = Inr f' \<and>
            validity (ctrl f') ''notBlank'' = Some (s \<noteq> []) \<and>
            modelValue (ctrl f') = (if s = [] then JUndefined else JStr s)))"
proof -
  have fn: "notBlank c vv =
     (case vv of
        JUndefined \<Rightarrow> Inl TypeError
      | JNull \<Rightarrow> Inl TypeError
      | JBool b \<Rightarrow> Inr (setValidity c ''notBlank'' False, JUndefined)
      | JNum n \<Rightarrow> Inr (setValidity c ''notBlank'' False, JUndefined)
      | JStr s \<Rightarrow>
          if s = [] then Inr (setValidity c ''notBlank'' False, JUndefined)
          else Inr (setValidity c ''notBlank'' True, vv))"
    by (cases vv) (simp_all add: notBlank_def)
  have pipe: "\<exists>f'. field_step h \<lparr>ctrl = link_notBlank c, attrs = atr, observers = obs\<rparr>
               (ViewChange (JStr s)) = Inr f' \<and>
            validity (ctrl f') ''notBlank'' = Some (s \<noteq> []) \<and>
            modelValue (ctrl f') = (if s = [] then JUndefined else JStr s)"
    if ps: "set (parsers c) \<subseteq> {Fn_maxValidator, Fn_minValidator}"
      and emax: "scope_eval h (atr ''validateNumberMax'') = Inr mx"
      and emin: "scope_eval h (atr ''validateNumberMin'') = Inr mn"
  proof -
    let ?v = "if s = [] then JUndefined else JStr s"
    let ?upd = "setValidity (link_notBlank c\<lparr>viewValue := JStr s\<rparr>) ''notBlank'' (s \<noteq> [])"
    have nb: "notBlank (link_notBlank c\<lparr>viewValue := JStr s\<rparr>) (JStr s) = Inr (?upd, ?v)"
      by (simp add: notBlank_def)
    show ?thesis
    proof (cases "s = []")
      case True
      with nb show ?thesis
        by (simp add: link_notBlank_def isUndefined_def setValidity_simps)
    next
      case False
      then have v: "JStr s \<noteq> JUndefined" by simp
      from run_formatters_bound [OF ps emax emin, of ?upd "JStr s"]
      obtain c' where c': "run_formatters h atr (parsers c) ?upd (JStr s) = Inr (c', JStr s)"
        and k: "\<forall>k. k \<noteq> ''validateNumberMax'' \<and> k \<noteq> ''validateNumberMin'' \<longrightarrow>
             validity c' k = validity ?upd k"
        by blast
      from k have "validity c' ''notBlank'' = Some (s \<noteq> [])"
        by (simp add: setValidity_simps)
      with c' nb False show ?thesis
        by (simp add: link_notBlank_def isUndefined_def run_parsers_bound [OF ps emax emin v])
    qed
  qed
  from fn pipe show ?thesis by blast
qed

text \<open>The empty string is withheld from the model, the string \<^verbatim>\<open>x\<close> reaches it.\<close>

theorem notBlank_by_length_witness:
  "notBlank example_ctrl (JStr []) = Inr (setValidity example_ctrl ''notBlank'' False, JUndefined) \<and>
   notBlank example_ctrl (JStr (ustr ''x'')) =
     Inr (setValidity example_ctrl ''notBlank'' True, JStr (ustr ''x'')) \<and>
   (\<exists>f'. field_step example_host
            \<lparr>ctrl = link_notBlank example_ctrl, attrs = (\<lambda>a. []), observers = []\<rparr>
            (ViewChange (JStr [])) = Inr f' \<and>
         validity (ctrl f') ''notBlank'' = Some False \<and>
         modelValue (ctrl f') = JUndefined) \<and>
   (\<exists>f'. field_step example_host
            \<lparr>ctrl = link_notBlank example_ctrl, attrs = (\<lambda>a. []), observers = []\<rparr>
            (ViewChange (JStr (ustr ''x''))) = Inr f' \<and>
         validity (ctrl f') ''notBlank'' = Some True \<and>
         modelValue (ctrl f') = JStr (ustr ''x''))"
proof -
  have ps: "set (parsers example_ctrl) \<subseteq> {Fn_maxValidator, Fn_minValidator}"
    by (simp add: example_ctrl_def)
  have e: "scope_eval example_host [] = Inr JUndefined" by (simp add: example_defs)
  have x: "ustr ''x'' \<noteq> []" by (simp add: ustr_def)
  from notBlank_by_length [of example_ctrl "JStr []" example_host "\<lambda>a. []" JUndefined JUndefined
      "[]" "[]"]
    notBlank_by_length [of example_ctrl "JStr (ustr ''x'')" example_host "\<lambda>a. []" JUndefined
      JUndefined "[]" "ustr ''x''"]
    ps e x
  show ?thesis by simp
qed

text \<open>
  The claim as stated fails on the number 5: it has no length at all, let alone the
  length zero, and yet the rule sets the flag to false and returns \<^verbatim>\<open>undefined\<close>.
\<close>

theorem notBlank_number_counterexample:
  "get_length (JNum (Finite 5)) = Inr JUndefined \<and>
   notBlank example_ctrl (JNum (Finite 5)) =
     Inr (setValidity example_ctrl ''notBlank'' False, JUndefined) \<and>
   validity (setValidity example_ctrl ''notBlank'' False) ''notBlank'' = Some False"
  by (simp add: notBlank_def setValidity_def)

section \<open>The cross-field match rule\<close>

lemma passwordCheck_Some:
  assumes "pw s = Some p"
  shows "passwordCheck s =
     Inr (s\<lparr>heap := (heap s)(ctrl_ref s := setValidity (heap s (ctrl_ref s)) ''match''
            (strict_eq (modelValue (heap s (ctrl_ref s))) (modelValue (heap s p))))\<rparr>)"
  using assms by (simp add: passwordCheck_def scope_apply_def Let_def)

text \<open>What one run of \<^verbatim>\<open>passwordCheck\<close> keeps and what it writes.\<close>

lemma passwordCheck_frame:
  assumes "passwordCheck s = Inr s'"
  shows "pw s' = pw s" "ctrl_ref s' = ctrl_ref s" "element s' = element s"
    "jquery s' = jquery s" "listeners s' = listeners s"
    "modelValue (heap s' r) = modelValue (heap s r)"
    "ctrl_name (heap s' r) = ctrl_name (heap s r)"
    "r \<noteq> ctrl_ref s \<or> k \<noteq> ''match'' \<Longrightarrow> validity (heap s' r) k = validity (heap s r) k"
  using assms
  by (auto simp: passwordCheck_def scope_apply_def Let_def setValidity_def split: option.splits)

lemma passwordCheck_match:
  assumes "passwordCheck s = Inr s'" "pw s = Some p"
  shows "validity (heap s' (ctrl_ref s)) ''match'' =
     Some (strict_eq (modelValue (heap s (ctrl_ref s))) (modelValue (heap s p)))"
  using assms by (auto simp: passwordCheck_def scope_apply_def Let_def setValidity_def)

lemma run_listeners_frame:
  assumes "run_listeners fns s = Inr s'"
  shows "pw s' = pw s \<and> ctrl_ref s' = ctrl_ref s \<and> element s' = element s \<and>
    jquery s' = jquery s \<and> listeners s' = listeners s \<and>
    (\<forall>r. modelValue (heap s' r) = modelValue (heap s r)) \<and>
    (\<forall>r. ctrl_name (heap s' r) = ctrl_name (heap s r)) \<and>
    (\<forall>r k. r \<noteq> ctrl_ref s \<or> k \<noteq> ''match'' \<longrightarrow> validity (heap s' r) k = validity (heap s r) k)"
  using assms
proof (induction fns arbitrary: s)
  case Nil
  then show ?case by simp
next
  case (Cons fn fns)
  have fn: "fn = Fn_passwordCheck" by (cases fn)
  from Cons.prems fn obtain s1 where s1: "passwordCheck s = Inr s1"
    and rest: "run_listeners fns s1 = Inr s'"
    by (auto split: sum.splits)
  from Cons.IH [OF rest] passwordCheck_frame [OF s1] show ?case by simp
qed

lemma run_listeners_total:
  assumes "pw s = Some p"
  shows "\<exists>s'. run_listeners fns s = Inr s'"
  using assms
proof (induction fns arbitrary: s)
  case Nil
  then show ?case by simp
next
  case (Cons fn fns)
  have fn: "fn = Fn_passwordCheck" by (cases fn)
  from passwordCheck_Some [OF Cons.prems] obtain s1 where s1: "passwordCheck s = Inr s1" by blast
  with passwordCheck_frame(1) [OF s1] Cons.prems have "pw s1 = Some p" by simp
  from Cons.IH [OF this] s1 fn show ?case by simp
qed

lemma run_listeners_match:
  assumes "run_listeners fns s = Inr s'" "pw s = Some p" "fns \<noteq> []"
  shows "validity (heap s' (ctrl_ref s)) ''match'' =
     Some (strict_eq (modelValue (heap s (ctrl_ref s))) (modelValue (heap s p)))"
  using assms
proof (induction fns arbitrary: s)
  case Nil
  then show ?case by simp
next
  case (Cons fn fns)
  have fn: "fn = Fn_passwordCheck" by (cases fn)
  from Cons.prems(1) fn obtain s1 where s1: "passwordCheck s = Inr s1"
    and rest: "run_listeners fns s1 = Inr s'"
    by (auto split: sum.splits)
  note fr = passwordCheck_frame [OF s1]
  show ?case
  proof (cases "fns = []")
    case True
    with rest have "s' = s1" by simp
    with passwordCheck_match [OF s1 Cons.prems(2)] show ?thesis by simp
  next
    case False
    from fr(1) Cons.prems(2) have "pw s1 = Some p" by simp
    from Cons.IH [OF rest this False] fr(2) fr(6) show ?thesis by simp
  qed
qed

lemma match_step_frame:
  assumes "match_step s e = Inr s'"
  shows "pw s' = pw s \<and> ctrl_ref s' = ctrl_ref s \<and> element s' = element s \<and>
    jquery s' = jquery s \<and> listeners s' = listeners s \<and>
    (\<forall>r. ctrl_name (heap s' r) = ctrl_name (heap s r)) \<and>
    (\<forall>r k. r \<noteq> ctrl_ref s \<or> k \<noteq> ''match'' \<longrightarrow> validity (heap s' r) k = validity (heap s r) k)"
proof (cases e)
  case (Dom ev target)
  with assms run_listeners_frame [of _ s s'] show ?thesis by (simp add: trigger_def)
next
  case (SetModel r v)
  with assms show ?thesis by auto
qed

lemma run_events_frame:
  assumes "run_events s es = Inr s'"
  shows "pw s' = pw s \<and> ctrl_ref s' = ctrl_ref s \<and> element s' = element s \<and>
    jquery s' = jquery s \<and> listeners s' = listeners s \<and>
    (\<forall>r. ctrl_name (heap s' r) = ctrl_name (heap s r)) \<and>
    (\<forall>r k. r \<noteq> ctrl_ref s \<or> k \<noteq> ''match'' \<longrightarrow> validity (heap s' r) k = validity (heap s r) k)"
  using assms
proof (induction es arbitrary: s)
  case Nil
  then show ?case by simp
next
  case (Cons e es)
  from Cons.prems obtain s1 where s1: "match_step s e = Inr s1"
    and rest: "run_events s1 es = Inr s'"
    by (auto split: sum.splits)
  from Cons.IH [OF rest] match_step_frame [OF s1] show ?case by simp
qed

lemma run_events_total:
  assumes "pw s = Some p"
  shows "\<exists>s'. run_events s es = Inr s'"
  using assms
proof (induction es arbitrary: s)
  case Nil
  then show ?case by simp
next
  case (Cons e es)
  have "\<exists>s1. match_step s e = Inr s1"
  proof (cases e)
    case (Dom ev target)
    with run_listeners_total [OF Cons.prems] show ?thesis by (simp add: trigger_def)
  next
    case (SetModel r v)
    then show ?thesis by simp
  qed
  then obtain s1 where s1: "match_step s e = Inr s1" by blast
  with match_step_frame [OF s1] Cons.prems have "pw s1 = Some p" by simp
  from Cons.IH [OF this] s1 show ?case by simp
qed

lemma on_Nil: "on [] evs fn reg = reg"
  by (simp add: on_def)

lemma on_Cons:
  "on (a # elems) evs fn reg = on elems evs fn (reg(a := reg a @ map (\<lambda>ev. (ev, fn)) evs))"
  by (simp add: on_def)

lemma on_keeps: "x \<in> set (reg e) \<Longrightarrow> x \<in> set (on elems evs fn reg e)"
proof (induction elems arbitrary: reg)
  case Nil
  then show ?case by (simp add: on_Nil)
next
  case (Cons a elems)
  let ?reg = "reg(a := reg a @ map (\<lambda>ev. (ev, fn)) evs)"
  from Cons.prems have "x \<in> set (?reg e)"
    by auto
  then have "x \<in> set (on elems evs fn ?reg e)" by (rule Cons.IH)
  then show ?case by (simp only: on_Cons)
qed

lemma on_registers:
  "e \<in> set elems \<Longrightarrow> ev \<in> set evs \<Longrightarrow> (ev, fn) \<in> set (on elems evs fn reg e)"
proof (induction elems arbitrary: reg)
  case Nil
  then show ?case by simp
next
  case (Cons a elems)
  show ?case
  proof (cases "e = a")
    case True
    let ?reg = "reg(a := reg a @ map (\<lambda>ev. (ev, fn)) evs)"
    have "(ev, fn) \<in> set (?reg e)"
      using True Cons.prems(2) by simp
    then have "(ev, fn) \<in> set (on elems evs fn ?reg e)" by (rule on_keeps)
    then show ?thesis by (simp only: on_Cons)
  next
    case False
    with Cons.prems have "e \<in> set elems" by simp
    then have "(ev, fn) \<in> set (on elems evs fn (reg(a := reg a @ map (\<lambda>ev. (ev, fn)) evs)) e)"
      using Cons.prems(2) by (rule Cons.IH)
    then show ?thesis by (simp only: on_Cons)
  qed
qed

lemma link_registers:
  assumes "link_hzPasswordMatch s = Inr s'" "pw s = Some p"
    "jquery s (''#'' @ ctrl_name (heap s p)) = Inr pwElement"
    "ev = Keyup \<or> ev = Change"
    "target = element s \<or> target \<in> set pwElement"
  shows "(ev, Fn_passwordCheck) \<in> set (listeners s' target)"
proof -
  let ?reg = "on pwElement [Keyup, Change] Fn_passwordCheck (listeners s)"
  from assms(1,2,3) have l: "listeners s' = on [element s] [Keyup, Change] Fn_passwordCheck ?reg"
    by (auto simp: link_hzPasswordMatch_def Let_def)
  from assms(4) have ev: "ev \<in> set [Keyup, Change]" by auto
  from assms(5) show ?thesis
  proof
    assume "target = element s"
    then have "target \<in> set [element s]" by simp
    from on_registers [OF this ev] l show ?thesis by simp
  next
    assume "target \<in> set pwElement"
    from on_registers [OF this ev, of Fn_passwordCheck "listeners s"]
    have "(ev, Fn_passwordCheck) \<in> set (?reg target)" .
    then have "(ev, Fn_passwordCheck) \<in>
        set (on [element s] [Keyup, Change] Fn_passwordCheck ?reg target)" by (rule on_keeps)
    with l show ?thesis by simp
  qed
qed

lemma link_frame:
  assumes "link_hzPasswordMatch s = Inr s'"
  shows "heap s' = heap s" "pw s' = pw s" "ctrl_ref s' = ctrl_ref s" "element s' = element s"
    "jquery s' = jquery s"
  using assms
  by (auto simp: link_hzPasswordMatch_def Let_def split: option.splits sum.splits)

text \<open>
  Claim C4.  After the directive is linked, and after any further events, a
  \<^verbatim>\<open>keyup\<close> or \<^verbatim>\<open>change\<close> event on the dependent field's element or on the reference
  field's element runs \<^verbatim>\<open>passwordCheck\<close>: the dependent controller's flag \<^verbatim>\<open>match\<close>
  becomes the strict equality of the two current model values (they are the same value,
  and not \<^verbatim>\<open>NaN\<close>), which stay as they are.  The reference field's element is
  \<^verbatim>\<open>pwElement\<close>, what the link function finds under the id \<^verbatim>\<open>scope.pw.$name\<close>; the source
  requires the password input to carry its name as id.
\<close>

theorem match_recomputed_on_events:
  assumes "link_hzPasswordMatch s0 = Inr s1"
    and "pw s0 = Some p"
    and "jquery s0 (''#'' @ ctrl_name (heap s0 p)) = Inr pwElement"
    and "run_events s1 es = Inr s"
    and "ev = Keyup \<or> ev = Change"
    and "target = element s0 \<or> target \<in> set pwElement"
  shows "\<exists>s'. trigger s ev target = Inr s' \<and>
           validity (heap s' (ctrl_ref s0)) ''match'' =
             Some (strict_eq (modelValue (heap s (ctrl_ref s0))) (modelValue (heap s p))) \<and>
           validity (heap s' (ctrl_ref s0)) ''match'' =
             Some (modelValue (heap s (ctrl_ref s0)) = modelValue (heap s p) \<and>
                   modelValue (heap s p) \<noteq> JNum NaN) \<and>
           (\<forall>r. modelValue (heap s' r) = modelValue (heap s r))"
proof -
  note lf = link_frame [OF assms(1)]
  from run_events_frame [OF assms(4)] lf assms(2)
  have pw: "pw s = Some p" and cr: "ctrl_ref s = ctrl_ref s0"
    and ls: "listeners s = listeners s1" by simp_all
  from link_registers [OF assms(1,2,3,5,6)] ls
  have reg: "(ev, Fn_passwordCheck) \<in> set (listeners s target)" by simp
  let ?fns = "map snd (filter (\<lambda>r. fst r = ev) (listeners s target))"
  from reg have ne: "?fns \<noteq> []" by (force simp: filter_empty_conv)
  from run_listeners_total [OF pw, of ?fns] obtain s' where s': "run_listeners ?fns s = Inr s'"
    by blast
  from run_listeners_match [OF s' pw ne] run_listeners_frame [OF s'] s' cr
  show ?thesis by (auto simp: trigger_def strict_eq_iff)
qed

text \<open>
  The password becomes \<^verbatim>\<open>abc\<close> and the confirmation \<^verbatim>\<open>abd\<close>; a key released in the
  password field marks the confirmation field as not matching.
\<close>

theorem match_recomputed_on_events_witness:
  "\<exists>s1 s s'.
     link_hzPasswordMatch example_form = Inr s1 \<and>
     run_events s1 [SetModel 1 (JStr (ustr ''abc'')), SetModel 0 (JStr (ustr ''abd''))] = Inr s \<and>
     trigger s Keyup 1 = Inr s' \<and>
     validity (heap s' 0) ''match'' = Some False"
proof -
  let ?es = "[SetModel 1 (JStr (ustr ''abc'')), SetModel 0 (JStr (ustr ''abd''))]"
  have pw: "pw example_form = Some 1" by (simp add: example_form_def)
  have jq: "jquery example_form (''#'' @ ctrl_name (heap example_form 1)) = Inr [1]"
    by (simp add: example_form_def)
  obtain s1 where link: "link_hzPasswordMatch example_form = Inr s1"
    by (simp add: link_hzPasswordMatch_def example_form_def Let_def)
  from link_frame [OF link] have pw1: "pw s1 = Some 1"
    by (simp add: pw)
  from run_events_total [OF pw1] obtain s where run: "run_events s1 ?es = Inr s" by blast
  then have hs: "modelValue (heap s 0) = JStr (ustr ''abd'')"
    "modelValue (heap s 1) = JStr (ustr ''abc'')"
    by auto
  have ev: "Keyup = Keyup \<or> Keyup = Change" by simp
  have tg: "1 = element example_form \<or> 1 \<in> set [1::nat]" by simp
  from match_recomputed_on_events [OF link pw jq run ev tg]
  obtain s' where "trigger s Keyup 1 = Inr s'"
    "validity (heap s' (ctrl_ref example_form)) ''match'' =
       Some (strict_eq (modelValue (heap s (ctrl_ref example_form))) (modelValue (heap s 1)))"
    by blast
  then have "trigger s Keyup 1 = Inr s' \<and> validity (heap s' 0) ''match'' = Some False"
    using hs by (simp add: example_form_def ustr_def)
  with link run show ?thesis by blast
qed

text \<open>
  Claim C5.  Whatever events follow the linking, no validity flag of the reference
  field changes, where the reference field is another controller than the dependent
  one; the only flag ever written, on any controller, is \<^verbatim>\<open>match\<close> of the dependent
  field.
\<close>

theorem match_one_directional:
  assumes "link_hzPasswordMatch s0 = Inr s1"
    and "run_events s1 es = Inr s"
    and "pw s0 = Some p"
    and "p \<noteq> ctrl_ref s0"
  shows "validity (heap s p) = validity (heap s0 p) \<and>
         (\<forall>r k. r \<noteq> ctrl_ref s0 \<or> k \<noteq> ''match'' \<longrightarrow>
            validity (heap s r) k = validity (heap s0 r) k)"
proof -
  note lf = link_frame [OF assms(1)]
  from run_events_frame [OF assms(2)] lf
  have fr: "\<forall>r k. r \<noteq> ctrl_ref s0 \<or> k \<noteq> ''match'' \<longrightarrow>
            validity (heap s r) k = validity (heap s0 r) k" by simp
  with assms(4) have "\<forall>k. validity (heap s p) k = validity (heap s0 p) k" by blast
  then have "validity (heap s p) = validity (heap s0 p)" by (intro ext) simp
  with fr show ?thesis by blast
qed

text \<open>
  The confirmation \<^verbatim>\<open>abd\<close> does not match the password \<^verbatim>\<open>abc\<close>: after a change event
  the confirmation field is flagged and the password field has no flag at all.
\<close>

theorem match_one_directional_witness:
  "\<exists>s1 s.
     link_hzPasswordMatch example_form = Inr s1 \<and>
     run_events s1 [SetModel 1 (JStr (ustr ''abc'')), SetModel 0 (JStr (ustr ''abd'')),
                    Dom Change 0] = Inr s \<and>
     validity (heap s 0) ''match'' = Some False \<and>
     validity (heap s 1) = Map.empty"
proof -
  let ?es = "[SetModel 1 (JStr (ustr ''abc'')), SetModel 0 (JStr (ustr ''abd'')), Dom Change 0]"
  have pw: "pw example_form = Some 1" by (simp add: example_form_def)
  have ne: "1 \<noteq> ctrl_ref example_form" by (simp add: example_form_def)
  obtain s1 where link: "link_hzPasswordMatch example_form = Inr s1"
    by (simp add: link_hzPasswordMatch_def example_form_def Let_def)
  have "\<exists>s. run_events s1 ?es = Inr s \<and> validity (heap s 0) ''match'' = Some False"
    using link
    by (auto simp: link_hzPasswordMatch_def example_form_def Let_def on_def trigger_def
        passwordCheck_def scope_apply_def setValidity_def ustr_def)
  then obtain s where run: "run_events s1 ?es = Inr s"
    and m: "validity (heap s 0) ''match'' = Some False" by blast
  from match_one_directional [OF link run pw ne]
  have "validity (heap s 1) = validity (heap example_form 1)" by blast
  then have "validity (heap s 1) = Map.empty" by (simp add: example_form_def example_ctrl_def)
  with link run m show ?thesis by blast
qed

section \<open>Exceptions\<close>

text \<open>
  Claim C9, amended.  On every input value, \<^verbatim>\<open>undefined\<close> and \<^verbatim>\<open>null\<close> included, the
  match rule completes, and so does a bound-check rule whose threshold expression
  evaluates; what \<^verbatim>\<open>scope.$eval\<close> raises on the threshold expression, the bound-check rule
  raises.  The non-empty rule completes on every value but \<^verbatim>\<open>undefined\<close> and \<^verbatim>\<open>null\<close>,
  where reading the length raises a \<^verbatim>\<open>TypeError\<close>.  An evaluation that completes changes
  nothing but validity flags.
\<close>

theorem rules_complete:
  "(scope_eval h (atr ''validateNumberMax'') = Inr m \<longrightarrow>
      (\<exists>c'. run_handler h atr Fn_maxValidator c v = Inr (c', v) \<and>
            c'\<lparr>validity := validity c\<rparr> = c)) \<and>
   (scope_eval h (atr ''validateNumberMax'') = Inl e \<longrightarrow>
      run_handler h atr Fn_maxValidator c v = Inl e) \<and>
   (scope_eval h (atr ''validateNumberMin'') = Inr m \<longrightarrow>
      (\<exists>c'. run_handler h atr Fn_minValidator c v = Inr (c', v) \<and>
            c'\<lparr>validity := validity c\<rparr> = c)) \<and>
   (scope_eval h (atr ''validateNumberMin'') = Inl e \<longrightarrow>
      run_handler h atr Fn_minValidator c v = Inl e) \<and>
   (v \<noteq> JUndefined \<and> v \<noteq> JNull \<longrightarrow>
      (\<exists>c' v'. run_handler h atr Fn_notBlank c v = Inr (c', v') \<and>
            c'\<lparr>validity := validity c\<rparr> = c)) \<and>
   (v = JUndefined \<or> v = JNull \<longrightarrow> run_handler h atr Fn_notBlank c v = Inl TypeError) \<and>
   (\<exists>s'. passwordCheck s = Inr s' \<and> s'\<lparr>heap := heap s\<rparr> = s \<and>
         (\<forall>r. (heap s' r)\<lparr>validity := validity (heap s r)\<rparr> = heap s r)) \<and>
   (pw s = None \<longrightarrow> passwordCheck s = Inr s)"
proof -
  have bmax: "\<exists>c'. run_handler h atr Fn_maxValidator c v = Inr (c', v) \<and>
      c'\<lparr>validity := validity c\<rparr> = c"
    if "scope_eval h (atr ''validateNumberMax'') = Inr m"
    using that by (simp add: maxValidator_def setValidity_def)
  have emax: "run_handler h atr Fn_maxValidator c v = Inl e"
    if "scope_eval h (atr ''validateNumberMax'') = Inl e"
    using that by (simp add: maxValidator_def)
  have bmin: "\<exists>c'. run_handler h atr Fn_minValidator c v = Inr (c', v) \<and>
      c'\<lparr>validity := validity c\<rparr> = c"
    if "scope_eval h (atr ''validateNumberMin'') = Inr m"
    using that by (simp add: minValidator_def setValidity_def)
  have emin: "run_handler h atr Fn_minValidator c v = Inl e"
    if "scope_eval h (atr ''validateNumberMin'') = Inl e"
    using that by (simp add: minValidator_def)
  have nb: "\<exists>c' v'. run_handler h atr Fn_notBlank c v = Inr (c', v') \<and>
      c'\<lparr>validity := validity c\<rparr> = c"
    if "v \<noteq> JUndefined \<and> v \<noteq> JNull"
    using that by (cases v) (simp_all add: notBlank_def setValidity_def)
  have nbe: "run_handler h atr Fn_notBlank c v = Inl TypeError" if "v = JUndefined \<or> v = JNull"
    using that by (auto simp: notBlank_def)
  have pc: "\<exists>s'. passwordCheck s = Inr s' \<and> s'\<lparr>heap := heap s\<rparr> = s \<and>
            (\<forall>r. (heap s' r)\<lparr>validity := validity (heap s r)\<rparr> = heap s r)"
    by (cases "pw s") (auto simp: passwordCheck_def scope_apply_def Let_def setValidity_def)
  have pce: "passwordCheck s = Inr s" if "pw s = None"
    using that by (simp add: passwordCheck_def scope_apply_def)
  from bmax emax bmin emin nb nbe pc pce show ?thesis by blast
qed

theorem rules_complete_witness:
  "(\<exists>c'. run_handler example_host (\<lambda>a. ''10'') Fn_maxValidator example_ctrl JNull =
           Inr (c', JNull)) \<and>
   (\<exists>c' v'. run_handler example_host (\<lambda>a. []) Fn_notBlank example_ctrl (JStr (ustr ''x'')) =
           Inr (c', v')) \<and>
   run_handler example_host (\<lambda>a. []) Fn_notBlank example_ctrl JNull = Inl TypeError \<and>
   (\<exists>s'. passwordCheck example_form = Inr s') \<and>
   passwordCheck (example_form\<lparr>pw := None\<rparr>) = Inr (example_form\<lparr>pw := None\<rparr>)"
proof -
  have a: "JStr (ustr ''x'') \<noteq> JUndefined \<and> JStr (ustr ''x'') \<noteq> JNull" by simp
  have c: "pw (example_form\<lparr>pw := None\<rparr>) = None" by simp
  have d: "scope_eval example_host ''10'' = Inr (JNum (Finite 10))" by (simp add: example_defs)
  from rules_complete [of example_host "\<lambda>a. ''10''" "JNum (Finite 10)" example_ctrl JNull
      SyntaxError example_form]
    rules_complete [of example_host "\<lambda>a. []" JUndefined example_ctrl "JStr (ustr ''x'')"
      SyntaxError "example_form\<lparr>pw := None\<rparr>"]
    a c d
  show ?thesis by simp blast
qed

text \<open>
  The claim as stated fails twice: on \<^verbatim>\<open>undefined\<close> the non-empty rule raises, and
  with the attribute text \<^verbatim>\<open>1 +\<close>, which the expression parser rejects, the max rule
  raises on \<^verbatim>\<open>null\<close> as on every other value.
\<close>

theorem rules_raise_counterexample:
  "run_handler example_host (\<lambda>a. []) Fn_notBlank example_ctrl JUndefined = Inl TypeError \<and>
   run_handler example_host (\<lambda>a. ''1 +'') Fn_maxValidator example_ctrl JNull = Inl SyntaxError"
  by (simp add: notBlank_def maxValidator_def example_defs)

end
